theory Spec2Isabelle
  imports Main "HOL-Library.AList"
begin

section \<open>Python values, strings and errors\<close>

text \<open>
  The pipeline of \<^verbatim>\<open>sciphi/scripts/make_embeddings.py\<close> handles dictionaries decoded from
  JSON whose values are, by the annotation of \<^verbatim>\<open>stream_jsonl\<close>, strings or integers.
  A Python value is therefore \<^verbatim>\<open>None\<close>, an \<^verbatim>\<open>int\<close> or a \<^verbatim>\<open>str\<close>. A Python \<^verbatim>\<open>str\<close> is an
  Isabelle string, one \<^typ>\<open>char\<close> for each character, so that \<^verbatim>\<open>len\<close> is \<^const>\<open>length\<close>.
  Every exception the code can raise is a constructor of \<open>error\<close>, and a function that can
  raise returns \<open>error + 'a\<close>.
\<close>

datatype pyval = PyNone | PyInt int | PyStr string

datatype error =
  KeyError | IndexError | ValueError | OverflowError | FileNotFoundError | JSONDecodeError
  | UnboundLocalError

text \<open>\<^verbatim>\<open>str(n)\<close> for an integer: its decimal digits, with a minus sign when negative.\<close>

definition digit_char :: "nat \<Rightarrow> char" where
  "digit_char d = char_of (48 + d)"

fun str_nat :: "nat \<Rightarrow> string" where
  "str_nat n = (if n < 10 then [digit_char n] else str_nat (n div 10) @ [digit_char (n mod 10)])"

declare str_nat.simps [simp del]

definition str_int :: "int \<Rightarrow> string" where
  "str_int i = (if i < 0 then CHR ''-'' # str_nat (nat (- i)) else str_nat (nat i))"

text \<open>What an f-string writes for a value: \<^verbatim>\<open>f"{title}"\<close> is \<^verbatim>\<open>str(title)\<close>.\<close>

fun py_str :: "pyval \<Rightarrow> string" where
  "py_str PyNone = ''None''"
| "py_str (PyInt i) = str_int i"
| "py_str (PyStr s) = s"

text \<open>The slice \<^verbatim>\<open>s[:n]\<close>: a negative bound counts from the end.\<close>

definition py_slice_to :: "'a list \<Rightarrow> int \<Rightarrow> 'a list" where
  "py_slice_to s n = (if 0 \<le> n then take (nat n) s else take (length s - nat (- n)) s)"

text \<open>\<^verbatim>\<open>" ".join(xs)\<close>.\<close>

fun join_space :: "string list \<Rightarrow> string" where
  "join_space [] = []"
| "join_space [x] = x"
| "join_space (x # y # ys) = x @ '' '' @ join_space (y # ys)"

section \<open>The Chunker\<close>

text \<open>
  A Sentence Row is a row of the data frame: its \<^verbatim>\<open>document_id\<close> and its \<^verbatim>\<open>text\<close>. A Chunk is
  the tuple \<^verbatim>\<open>(document_id, title, text)\<close>. The loop of
  \<^verbatim>\<open>reconstitute_sentences_into_chunks\<close> updates five local variables, which are the fields
  of \<open>chunker_state\<close>.
\<close>

type_synonym row = "pyval \<times> string"

type_synonym chunk = "pyval \<times> pyval \<times> string"

record chunker_state =
  chunks :: "chunk list"
  current_chunk :: string
  current_length :: int
  title :: pyval
  document_id :: pyval

definition chunker_init :: chunker_state where
  "chunker_init =
     \<lparr>chunks = [], current_chunk = [], current_length = 0, title = PyNone, document_id = PyNone\<rparr>"

text \<open>The separator \<^verbatim>\<open>":\n"\<close> between a title and the text that follows it.\<close>

definition title_sep :: string where
  "title_sep = [CHR '':'', CHR 0x0A]"

text \<open>
  One iteration of the loop (lines 64 to 87). The variables \<^verbatim>\<open>document_id\<close> and \<^verbatim>\<open>title\<close> are
  assigned from the row before the test, so the tuple appended when the buffer is closed
  holds the values of the row at hand. \<^verbatim>\<open>ids_to_titles[document_id]\<close> raises \<^verbatim>\<open>KeyError\<close> for
  an unknown id.
\<close>

definition chunk_step ::
  "(pyval \<rightharpoonup> pyval) \<Rightarrow> int \<Rightarrow> bool \<Rightarrow> bool \<Rightarrow> chunker_state \<Rightarrow> row \<Rightarrow> error + chunker_state"
where
  "chunk_step ids_to_titles chunk_size prepend_title_to_each_chunk truncate_long_chunks s r =
     (case r of (doc, sentence) \<Rightarrow>
      (case ids_to_titles doc of
         None \<Rightarrow> Inl KeyError
       | Some t \<Rightarrow>
           if current_length s + int (length sentence) > chunk_size then
             let closed = (doc, t,
                   if truncate_long_chunks then py_slice_to (current_chunk s) chunk_size
                   else current_chunk s);
                 fresh = (if prepend_title_to_each_chunk then py_str t @ title_sep @ sentence
                          else sentence)
             in Inr \<lparr>chunks = chunks s @ [closed], current_chunk = fresh,
                      current_length = int (length fresh), title = t, document_id = doc\<rparr>
           else
             Inr \<lparr>chunks = chunks s,
                  current_chunk =
                    (if current_chunk s \<noteq> [] then current_chunk s @ '' '' else current_chunk s)
                      @ sentence,
                  current_length = current_length s + int (length sentence),
                  title = t, document_id = doc\<rparr>))"

text \<open>The loop over the rows (line 63); an exception ends it.\<close>

fun chunk_loop ::
  "(pyval \<rightharpoonup> pyval) \<Rightarrow> int \<Rightarrow> bool \<Rightarrow> bool \<Rightarrow> chunker_state \<Rightarrow> row list \<Rightarrow> error + chunker_state"
where
  "chunk_loop ids_to_titles chunk_size pre tr s [] = Inr s"
| "chunk_loop ids_to_titles chunk_size pre tr s (r # rs) =
     (case chunk_step ids_to_titles chunk_size pre tr s r of
        Inl e \<Rightarrow> Inl e
      | Inr s' \<Rightarrow> chunk_loop ids_to_titles chunk_size pre tr s' rs)"

text \<open>
  The flush after the loop (lines 89 to 91): a buffer that is not empty becomes the last
  chunk, with the title in front of it whatever the flags are.
\<close>

definition final_flush :: "chunker_state \<Rightarrow> chunk list" where
  "final_flush s =
     (if current_chunk s \<noteq> [] then
        chunks s @ [(document_id s, title s, py_str (title s) @ title_sep @ current_chunk s)]
      else chunks s)"

definition reconstitute_sentences_into_chunks ::
  "row list \<Rightarrow> (pyval \<rightharpoonup> pyval) \<Rightarrow> int \<Rightarrow> bool \<Rightarrow> bool \<Rightarrow> error + chunk list"
where
  "reconstitute_sentences_into_chunks df ids_to_titles chunk_size
       prepend_title_to_each_chunk truncate_long_chunks =
     (case chunk_loop ids_to_titles chunk_size prepend_title_to_each_chunk truncate_long_chunks
             chunker_init df of
        Inl e \<Rightarrow> Inl e
      | Inr s \<Rightarrow> Inr (final_flush s))"

subsection \<open>Projections of chunks and of the loop state\<close>





section \<open>Files, text and arrays\<close>

text \<open>
  The file system is a map from paths to contents. A content is a list of characters: the
  bytes of a binary file, the characters of a text file. A gzip file is held as the text it
  decompresses to; writing to it in append mode adds a gzip member, and the members
  decompress to the concatenation of what was written. The model is of a POSIX system, where
  writing a text file leaves \<^verbatim>\<open>"\n"\<close> as it is. Failures of the operating system other than a
  missing file (permissions, a full disk) are not modelled.
\<close>

type_synonym filesystem = "string \<rightharpoonup> string"

definition LF :: char where
  "LF = CHR 0x0A"

definition CR :: char where
  "CR = CHR 0x0D"

text \<open>
  Iterating over a file opened in text mode (\<^verbatim>\<open>gzip.open(path, "rt")\<close>, universal newlines):
  the lines in order, each with its terminator, where \<^verbatim>\<open>"\r\n"\<close> and \<^verbatim>\<open>"\r"\<close> are read as
  \<^verbatim>\<open>"\n"\<close>. A last line without terminator is a line too.
\<close>

fun text_lines :: "string \<Rightarrow> string list" where
  "text_lines [] = []"
| "text_lines (c # cs) =
     (if c = CR \<and> cs \<noteq> [] \<and> hd cs = LF then text_lines cs
      else if c = LF \<or> c = CR then [LF] # text_lines cs
      else (case text_lines cs of [] \<Rightarrow> [[c]] | l # ls \<Rightarrow> (c # l) # ls))"

text \<open>\<^verbatim>\<open>str.strip()\<close>: the characters for which \<^verbatim>\<open>str.isspace\<close> holds are removed at both ends.\<close>

definition isspace :: "char \<Rightarrow> bool" where
  "isspace c \<longleftrightarrow>
     (let n = (of_char c :: nat)
      in (9 \<le> n \<and> n \<le> 13) \<or> (28 \<le> n \<and> n \<le> 32) \<or> n = 133 \<or> n = 160)"

definition py_strip :: "string \<Rightarrow> string" where
  "py_strip s = rev (dropWhile isspace (rev (dropWhile isspace s)))"

text \<open>\<^verbatim>\<open>",".join(xs)\<close> and \<^verbatim>\<open>s.split(",")\<close>.\<close>

fun join_comma :: "string list \<Rightarrow> string" where
  "join_comma [] = []"
| "join_comma [x] = x"
| "join_comma (x # y # ys) = x @ '','' @ join_comma (y # ys)"

fun split_comma :: "string \<Rightarrow> string list" where
  "split_comma [] = [[]]"
| "split_comma (c # cs) =
     (if c = CHR '','' then [] # split_comma cs
      else (case split_comma cs of [] \<Rightarrow> [[c]] | w # ws \<Rightarrow> (c # w) # ws))"

text \<open>
  \<^verbatim>\<open>int(s)\<close> for a string: white space around the number is ignored, a sign may come first,
  and at least one decimal digit must follow; anything else raises \<^verbatim>\<open>ValueError\<close> (here
  \<open>None\<close>). The underscores that Python also accepts between digits are not modelled;
  \<^verbatim>\<open>save_embeddings_to_memmap\<close> never writes them.
\<close>

definition isdigit :: "char \<Rightarrow> bool" where
  "isdigit c \<longleftrightarrow> 48 \<le> (of_char c :: nat) \<and> (of_char c :: nat) \<le> 57"

definition digit_val :: "char \<Rightarrow> nat" where
  "digit_val c = of_char c - 48"

fun digits_val :: "string \<Rightarrow> nat \<Rightarrow> nat" where
  "digits_val [] acc = acc"
| "digits_val (c # cs) acc = digits_val cs (10 * acc + digit_val c)"

definition parse_digits :: "string \<Rightarrow> nat option" where
  "parse_digits ds = (if ds \<noteq> [] \<and> list_all isdigit ds then Some (digits_val ds 0) else None)"

definition py_int :: "string \<Rightarrow> int option" where
  "py_int s =
     (case py_strip s of
        [] \<Rightarrow> None
      | c # cs \<Rightarrow>
          if c = CHR ''-'' then map_option (\<lambda>n. - int n) (parse_digits cs)
          else if c = CHR ''+'' then map_option int (parse_digits cs)
          else map_option int (parse_digits (c # cs)))"

subsection \<open>Arrays\<close>

text \<open>
  A NumPy array is its element type, its shape and its buffer: the elements in row-major
  order, \<open>itemsize\<close> bytes each. Elements are held as the bytes that represent them, so that
  writing an array to a file and reading a file as an array are what they are in memory. An
  array is well formed when its buffer has the size its shape and element type require.
\<close>

datatype dtype = Float16 | Float32 | Float64

fun itemsize :: "dtype \<Rightarrow> nat" where
  "itemsize Float16 = 2"
| "itemsize Float32 = 4"
| "itemsize Float64 = 8"

record ndarray =
  dtype :: dtype
  shape :: "nat list"
  data :: string

definition nbytes :: "ndarray \<Rightarrow> nat" where
  "nbytes a = prod_list (shape a) * itemsize (dtype a)"

definition wf_ndarray :: "ndarray \<Rightarrow> bool" where
  "wf_ndarray a \<longleftrightarrow> length (data a) = nbytes a"

text \<open>
  \<^verbatim>\<open>a[idx]\<close> for an integer index: the sub-array at position \<^verbatim>\<open>idx\<close> of the first axis. A
  negative index counts from the end; an index outside the first axis, or any index into an
  array without axes, raises \<^verbatim>\<open>IndexError\<close>.
\<close>

definition ndarray_getitem :: "ndarray \<Rightarrow> int \<Rightarrow> error + ndarray" where
  "ndarray_getitem a idx =
     (case shape a of
        [] \<Rightarrow> Inl IndexError
      | n # rest \<Rightarrow>
          let j = (if idx < 0 then idx + int n else idx)
          in if j < 0 \<or> int n \<le> j then Inl IndexError
             else
               let row_nbytes = prod_list rest * itemsize (dtype a)
               in Inr \<lparr>dtype = dtype a, shape = rest,
                       data = take row_nbytes (drop (nat j * row_nbytes) (data a))\<rparr>)"

text \<open>
  \<^verbatim>\<open>np.memmap(file_name, dtype="float32", mode="r", shape=shape)\<close>. The file must exist. The
  mapping has as many bytes as the shape requires at four bytes an element: a negative
  length is refused with \<^verbatim>\<open>OverflowError\<close>, an empty file and a file shorter than the mapping
  with \<^verbatim>\<open>ValueError\<close>, and so is a negative dimension when the array is made. The array is
  the first bytes of the file, read as 32-bit floats, whatever wrote them. Products of
  dimensions are taken in unbounded integers.
\<close>

definition np_memmap_r :: "filesystem \<Rightarrow> string \<Rightarrow> int list \<Rightarrow> error + ndarray" where
  "np_memmap_r fs file_name shp =
     (case fs file_name of
        None \<Rightarrow> Inl FileNotFoundError
      | Some bytes \<Rightarrow>
          let n = prod_list shp * 4
          in if n < 0 then Inl OverflowError
             else if bytes = [] then Inl ValueError
             else if int (length bytes) < n then Inl ValueError
             else if list_ex (\<lambda>k. k < 0) shp then Inl ValueError
             else Inr \<lparr>dtype = Float32, shape = map nat shp, data = take (nat n) bytes\<rparr>)"

section \<open>The Embedding Store and the Metadata Store\<close>

text \<open>
  \<^verbatim>\<open>save_embeddings_to_memmap\<close> (lines 94 to 118). The sidecar \<^verbatim>\<open>file_name + ".shape"\<close> is
  opened with mode \<^verbatim>\<open>"w"\<close> and receives the dimensions, joined by commas. The binary file is
  opened with mode \<^verbatim>\<open>"w+"\<close>, which truncates it, is given the size of the array in its own
  element type, and receives the elements. Mapping a file of no bytes is refused with
  \<^verbatim>\<open>ValueError\<close>; the file system a failed call leaves behind is not modelled.
\<close>

definition save_embeddings_to_memmap :: "ndarray \<Rightarrow> string \<Rightarrow> filesystem \<Rightarrow> error + filesystem"
where
  "save_embeddings_to_memmap embeddings file_name fs =
     (let fs1 = fs(file_name @ ''.shape'' \<mapsto> join_comma (map str_nat (shape embeddings)))
      in if nbytes embeddings = 0 then Inl ValueError
         else Inr (fs1(file_name \<mapsto> data embeddings)))"

text \<open>
  A dictionary with string keys, such as a decoded JSON object or a metadata entry, is an
  association list. \<^verbatim>\<open>json.dumps\<close> and \<^verbatim>\<open>json.loads\<close> belong to the standard library and
  are parameters: \<open>json_loads\<close> returns \<open>None\<close> where \<^verbatim>\<open>json.loads\<close> raises
  \<^verbatim>\<open>JSONDecodeError\<close>, and a dictionary otherwise, as the annotation of \<^verbatim>\<open>stream_jsonl\<close> has it.
\<close>

type_synonym entry = "(string \<times> pyval) list"

text \<open>
  \<^verbatim>\<open>save_metadata_to_file\<close> (lines 121 to 131): the file is opened in append mode and each
  entry is written as one line.
\<close>

definition save_metadata_to_file ::
  "(entry \<Rightarrow> string) \<Rightarrow> entry list \<Rightarrow> string \<Rightarrow> filesystem \<Rightarrow> filesystem"
where
  "save_metadata_to_file json_dumps metadata file_name fs =
     fs(file_name \<mapsto>
        foldl (\<lambda>written entry. written @ json_dumps entry @ [LF])
          (case fs file_name of None \<Rightarrow> [] | Some old \<Rightarrow> old) metadata)"

text \<open>\<^verbatim>\<open>_load_shape_from_file\<close> (lines 134 to 139).\<close>

definition load_shape_from_file :: "string \<Rightarrow> filesystem \<Rightarrow> error + int list" where
  "load_shape_from_file file_name fs =
     (case fs (file_name @ ''.shape'') of
        None \<Rightarrow> Inl FileNotFoundError
      | Some shape_str \<Rightarrow>
          (case those (map py_int (split_comma shape_str)) of
             None \<Rightarrow> Inl ValueError
           | Some shp \<Rightarrow> Inr shp))"

text \<open>
  \<^verbatim>\<open>fetch_embedding_and_metadata\<close> (lines 142 to 172) in its two halves. The first loads the
  shape, maps the binary file as 32-bit floats and indexes it (lines 157 to 163).
\<close>

definition fetch_embedding :: "string \<Rightarrow> int \<Rightarrow> filesystem \<Rightarrow> error + ndarray" where
  "fetch_embedding embeddings_file idx fs =
     (case load_shape_from_file embeddings_file fs of
        Inl e \<Rightarrow> Inl e
      | Inr shp \<Rightarrow>
          (case np_memmap_r fs embeddings_file shp of
             Inl e \<Rightarrow> Inl e
           | Inr memmap_array \<Rightarrow> ndarray_getitem memmap_array idx))"

text \<open>
  The second half scans the lines of the metadata file (lines 166 to 170). When no line has
  the index, the loop ends with \<^verbatim>\<open>metadata\<close> never assigned, and the \<^verbatim>\<open>return\<close> of line 172
  raises \<^verbatim>\<open>UnboundLocalError\<close>.
\<close>

fun scan_lines :: "(string \<Rightarrow> entry option) \<Rightarrow> string list \<Rightarrow> int \<Rightarrow> int \<Rightarrow> error + entry" where
  "scan_lines json_loads [] i idx = Inl UnboundLocalError"
| "scan_lines json_loads (line # rest) i idx =
     (if i = idx then
        (case json_loads (py_strip line) of
           None \<Rightarrow> Inl JSONDecodeError
         | Some metadata \<Rightarrow> Inr metadata)
      else scan_lines json_loads rest (i + 1) idx)"

definition fetch_metadata ::
  "(string \<Rightarrow> entry option) \<Rightarrow> string \<Rightarrow> int \<Rightarrow> filesystem \<Rightarrow> error + entry"
where
  "fetch_metadata json_loads metadata_file idx fs =
     (case fs metadata_file of
        None \<Rightarrow> Inl FileNotFoundError
      | Some text \<Rightarrow> scan_lines json_loads (text_lines text) 0 idx)"

definition fetch_embedding_and_metadata ::
  "(string \<Rightarrow> entry option) \<Rightarrow> string \<Rightarrow> string \<Rightarrow> int \<Rightarrow> filesystem \<Rightarrow> error + ndarray \<times> entry"
where
  "fetch_embedding_and_metadata json_loads embeddings_file metadata_file idx fs =
     (case fetch_embedding embeddings_file idx fs of
        Inl e \<Rightarrow> Inl e
      | Inr embedding \<Rightarrow>
          (case fetch_metadata json_loads metadata_file idx fs of
             Inl e \<Rightarrow> Inl e
           | Inr metadata \<Rightarrow> Inr (embedding, metadata)))"

section \<open>The Stream Reader\<close>

text \<open>
  A generator that ends is the list of what it yields, closed by its normal end or by the
  exception that ends it.
\<close>

datatype 'a gen = Done | Yield 'a "'a gen" | Raise error

text \<open>The generator that yields the elements of a list and then goes on as \<open>g\<close>.\<close>

fun yields :: "'a list \<Rightarrow> 'a gen \<Rightarrow> 'a gen" where
  "yields [] g = g"
| "yields (x # xs) g = Yield x (yields xs g)"

text \<open>\<^verbatim>\<open>key in entry\<close> and \<^verbatim>\<open>entry[key]\<close> for a dictionary.\<close>

definition has_key :: "entry \<Rightarrow> string \<Rightarrow> bool" where
  "has_key entry k \<longleftrightarrow> map_of entry k \<noteq> None"


text \<open>
  The loop of \<^verbatim>\<open>stream_jsonl\<close> (lines 30 to 34) over the lines of the file: a line that does
  not decode ends the generator with \<^verbatim>\<open>JSONDecodeError\<close>, an entry without \<^verbatim>\<open>page_id\<close> is
  passed over, any other entry is yielded.
\<close>

fun stream_lines :: "(string \<Rightarrow> entry option) \<Rightarrow> string list \<Rightarrow> entry gen" where
  "stream_lines json_loads [] = Done"
| "stream_lines json_loads (line # rest) =
     (case json_loads (py_strip line) of
        None \<Rightarrow> Raise JSONDecodeError
      | Some entry \<Rightarrow>
          if \<not> has_key entry ''page_id'' then stream_lines json_loads rest
          else Yield entry (stream_lines json_loads rest))"

definition stream_jsonl :: "(string \<Rightarrow> entry option) \<Rightarrow> string \<Rightarrow> filesystem \<Rightarrow> entry gen" where
  "stream_jsonl json_loads file_path fs =
     (case fs file_path of
        None \<Rightarrow> Raise FileNotFoundError
      | Some content \<Rightarrow> stream_lines json_loads (text_lines content))"

section \<open>The Pipeline Driver\<close>

text \<open>
  The collaborators of \<^verbatim>\<open>main\<close> that are not in this file of the repository are parameters:
  the JSON codec, \<^verbatim>\<open>process_documents\<close> of \<^verbatim>\<open>sciphi.llm.embedding_helpers\<close>, which turns the
  texts and ids of a batch into Sentence Rows, and \<^verbatim>\<open>model.encode\<close>, which turns the chunk
  texts into an array. Neither is taken to raise.
\<close>

record pipeline =
  json_loads :: "string \<Rightarrow> entry option"
  json_dumps :: "entry \<Rightarrow> string"
  process_documents :: "pyval list \<Rightarrow> pyval list \<Rightarrow> row list"
  encode :: "string list \<Rightarrow> ndarray"

text \<open>
  The local variables of \<^verbatim>\<open>main\<close> and the file system. \<^verbatim>\<open>ids_to_titles\<close> is a dictionary built
  by assignments, an association list updated in place.
\<close>

record main_state =
  document_ids :: "pyval list"
  documents :: "pyval list"
  ids_to_titles :: "(pyval \<times> pyval) list"
  files :: filesystem






subsection \<open>What the Pipeline Driver is specified to do\<close>







section \<open>Example values\<close>

text \<open>
  Concrete collaborators and data at which the theorems below are evaluated. On the two
  metadata entries and the five document lines used there, \<open>example_dumps\<close> and
  \<open>example_loads\<close> are \<^verbatim>\<open>json.dumps\<close> and \<^verbatim>\<open>json.loads\<close>. The example array has two rows of one
  32-bit float each.
\<close>

definition example_dumps :: "entry \<Rightarrow> string" where
  \<open>example_dumps e =
     (if e = [(''doc_id'', PyInt 1)] then ''{"doc_id": 1}'' else ''{"doc_id": 2}'')\<close>

definition example_doc :: "int \<Rightarrow> entry" where
  "example_doc k = [(''page_id'', PyInt k), (''title'', PyStr ''T''), (''text'', PyStr ''x'')]"

definition example_line :: "int \<Rightarrow> string" where
  \<open>example_line k = ''{"page_id": '' @ str_int k @ '', "title": "T", "text": "x"}''\<close>

definition example_loads :: "string \<Rightarrow> entry option" where
  \<open>example_loads s =
     (if s = ''{"doc_id": 1}'' then Some [(''doc_id'', PyInt 1)]
      else if s = ''{"doc_id": 2}'' then Some [(''doc_id'', PyInt 2)]
      else if s = example_line 1 then Some (example_doc 1)
      else if s = example_line 2 then Some (example_doc 2)
      else if s = example_line 3 then Some (example_doc 3)
      else if s = example_line 4 then Some (example_doc 4)
      else if s = example_line 5 then Some (example_doc 5)
      else None)\<close>

definition example_embeddings :: ndarray where
  "example_embeddings =
     \<lparr>dtype = Float32, shape = [2, 1],
      data = [CHR 0x01, CHR 0x02, CHR 0x03, CHR 0x04, CHR 0x05, CHR 0x06, CHR 0x07, CHR 0x08]\<rparr>"




section \<open>Lemmas about the Chunker\<close>








lemma join_space_append_head:
  "join_space ((a @ b) # xs) = a @ join_space (b # xs)"
  by (cases xs) simp_all

lemma sentence_lengths_nonneg:
  "0 \<le> sum_list (map (\<lambda>r. int (length (snd r))) rows)"
  by (induction rows) simp_all

lemma chunk_loop_fits:
  assumes "\<forall>r\<in>set rows. fst r = d" "ids d = Some t"
    "current_length s + sum_list (map (\<lambda>r. int (length (snd r))) rows) \<le> cs"
    "current_chunk s \<noteq> []" "title s = t" "document_id s = d"
  shows "\<exists>u. chunk_loop ids cs pre tr s rows = Inr u \<and> chunks u = chunks s
      \<and> current_chunk u = join_space (current_chunk s # map snd rows)
      \<and> title u = t \<and> document_id u = d"
  using assms
proof (induction rows arbitrary: s)
  case Nil
  then show ?case by simp
next
  case (Cons r rows)
  obtain x where r: "r = (d, x)" using Cons.prems(1) by (cases r) auto
  let ?s1 = "\<lparr>chunks = chunks s, current_chunk = current_chunk s @ '' '' @ x,
          current_length = current_length s + int (length x), title = t, document_id = d\<rparr>"
  have rest: "0 \<le> sum_list (map (\<lambda>r. int (length (snd r))) rows)"
    by (rule sentence_lengths_nonneg)
  from Cons.prems(3) r rest have fit: "current_length s + int (length x) \<le> cs" by simp
  have step: "chunk_step ids cs pre tr s (d, x) = Inr ?s1"
    using Cons.prems(2,4) fit by (simp add: chunk_step_def)
  have "\<exists>u. chunk_loop ids cs pre tr ?s1 rows = Inr u \<and> chunks u = chunks ?s1
      \<and> current_chunk u = join_space (current_chunk ?s1 # map snd rows)
      \<and> title u = t \<and> document_id u = d"
  proof (rule Cons.IH)
    show "\<forall>r\<in>set rows. fst r = d" using Cons.prems(1) by simp
    show "ids d = Some t" by (rule Cons.prems(2))
    show "current_length ?s1 + sum_list (map (\<lambda>r. int (length (snd r))) rows) \<le> cs"
      using Cons.prems(3) r by simp
  qed simp_all
  then obtain u where u: "chunk_loop ids cs pre tr ?s1 rows = Inr u" "chunks u = chunks s"
      "current_chunk u = join_space ((current_chunk s @ '' '' @ x) # map snd rows)"
      "title u = t" "document_id u = d"
    by auto
  have "join_space ((current_chunk s @ '' '' @ x) # map snd rows)
      = join_space (current_chunk s # map snd (r # rows))"
    using join_space_append_head[of "current_chunk s" "'' '' @ x" "map snd rows"]
      join_space_append_head[of "'' ''" x "map snd rows"] by (simp add: r)
  with u step r show ?case by simp
qed







section \<open>Lemmas about lines, decimal numbers and shapes\<close>

lemma text_lines_line:
  assumes "LF \<notin> set w" "CR \<notin> set w"
  shows "text_lines (w @ LF # rest) = (w @ [LF]) # text_lines rest"
  using assms
proof (induction w)
  case Nil
  have "LF \<noteq> CR" by (simp add: LF_def CR_def)
  then show ?case by simp
next
  case (Cons c w)
  then have c: "c \<noteq> LF" "c \<noteq> CR" and w: "LF \<notin> set w" "CR \<notin> set w" by auto
  from Cons.IH[OF w] c show ?case by simp
qed

lemma text_lines_written:
  assumes "\<forall>e\<in>set es. LF \<notin> set (f e) \<and> CR \<notin> set (f e)"
  shows "text_lines (concat (map (\<lambda>e. f e @ [LF]) es)) = map (\<lambda>e. f e @ [LF]) es"
  using assms
proof (induction es)
  case Nil
  then show ?case by simp
next
  case (Cons e es)
  then have e: "LF \<notin> set (f e)" "CR \<notin> set (f e)"
    and es: "\<forall>e\<in>set es. LF \<notin> set (f e) \<and> CR \<notin> set (f e)" by auto
  have "text_lines (f e @ LF # concat (map (\<lambda>e. f e @ [LF]) es))
      = (f e @ [LF]) # text_lines (concat (map (\<lambda>e. f e @ [LF]) es))"
    by (rule text_lines_line) (fact e)+
  with Cons.IH[OF es] show ?case by simp
qed

lemma foldl_written:
  "foldl (\<lambda>written e. written @ f e @ [LF]) old es = old @ concat (map (\<lambda>e. f e @ [LF]) es)"
  by (induction es arbitrary: old) simp_all

lemma scan_lines_found:
  assumes "i \<le> idx" "idx < i + int (length ls)"
  shows "scan_lines loads ls i idx =
     (case loads (py_strip (ls ! nat (idx - i))) of
        None \<Rightarrow> Inl JSONDecodeError | Some m \<Rightarrow> Inr m)"
  using assms
proof (induction ls arbitrary: i)
  case Nil
  then show ?case by simp
next
  case (Cons l ls)
  show ?case
  proof (cases "i = idx")
    case True
    then show ?thesis by simp
  next
    case False
    with Cons.prems have a: "i + 1 \<le> idx" "idx < (i + 1) + int (length ls)" by auto
    from False Cons.prems have "nat (idx - i) = Suc (nat (idx - (i + 1)))" by auto
    with Cons.IH[OF a] False show ?thesis by simp
  qed
qed

lemma scan_lines_beyond:
  assumes "i + int (length ls) \<le> idx"
  shows "scan_lines loads ls i idx = Inl UnboundLocalError"
  using assms
proof (induction ls arbitrary: i)
  case Nil
  then show ?case by simp
next
  case (Cons l ls)
  then have "i \<noteq> idx" "(i + 1) + int (length ls) \<le> idx" by auto
  with Cons.IH[of "i + 1"] show ?case by simp
qed

lemma split_comma_nonempty: "split_comma s \<noteq> []"
  by (induction s) (auto split: list.splits)

lemma split_comma_word:
  assumes "CHR '','' \<notin> set w"
  shows "split_comma (w @ CHR '','' # rest) = w # split_comma rest"
  using assms by (induction w) auto

lemma split_comma_last:
  assumes "CHR '','' \<notin> set w"
  shows "split_comma w = [w]"
  using assms by (induction w) auto

lemma split_comma_join_comma:
  assumes "ws \<noteq> []" "\<forall>w\<in>set ws. CHR '','' \<notin> set w"
  shows "split_comma (join_comma ws) = ws"
  using assms
proof (induction ws rule: join_comma.induct)
  case 1
  then show ?case by simp
next
  case (2 x)
  then show ?case by (simp add: split_comma_last)
next
  case (3 x y ys)
  then have x: "CHR '','' \<notin> set x" and r: "\<forall>w\<in>set (y # ys). CHR '','' \<notin> set w" by auto
  from 3(1) r have "split_comma (join_comma (y # ys)) = y # ys" by simp
  with split_comma_word[OF x, of "join_comma (y # ys)"] show ?case by simp
qed

lemma isdigit_digit_char: "d < 10 \<Longrightarrow> isdigit (digit_char d)"
  by (simp add: isdigit_def digit_char_def)

lemma digit_val_digit_char: "d < 10 \<Longrightarrow> digit_val (digit_char d) = d"
  by (simp add: digit_val_def digit_char_def)

lemma str_nat_digits: "list_all isdigit (str_nat n)"
proof (induction n rule: str_nat.induct)
  case (1 n)
  show ?case
  proof (cases "n < 10")
    case True
    then show ?thesis by (simp add: str_nat.simps[of n] isdigit_digit_char)
  next
    case False
    with 1 have "list_all isdigit (str_nat (n div 10))" by simp
    moreover have "isdigit (digit_char (n mod 10))" by (simp add: isdigit_digit_char)
    ultimately show ?thesis using False by (simp add: str_nat.simps[of n])
  qed
qed

lemma str_nat_nonempty: "str_nat n \<noteq> []"
  by (simp add: str_nat.simps[of n])

lemma digits_val_snoc: "digits_val (ds @ [c]) acc = 10 * digits_val ds acc + digit_val c"
  by (induction ds arbitrary: acc) simp_all

lemma digits_val_str_nat: "digits_val (str_nat n) 0 = n"
proof (induction n rule: str_nat.induct)
  case (1 n)
  show ?case
  proof (cases "n < 10")
    case True
    then show ?thesis by (simp add: str_nat.simps[of n] digit_val_digit_char)
  next
    case False
    with 1 have "digits_val (str_nat (n div 10)) 0 = n div 10" by simp
    with False show ?thesis
      by (simp add: str_nat.simps[of n] digits_val_snoc digit_val_digit_char)
  qed
qed

lemma isdigit_not_isspace: "isdigit c \<Longrightarrow> \<not> isspace c"
  by (simp add: isdigit_def isspace_def Let_def)

lemma isdigit_not_sign: "isdigit c \<Longrightarrow> c \<noteq> CHR ''-'' \<and> c \<noteq> CHR ''+'' \<and> c \<noteq> CHR '',''"
  by (auto simp: isdigit_def)

lemma dropWhile_none:
  assumes "list_all (\<lambda>c. \<not> P c) xs"
  shows "dropWhile P xs = xs"
  using assms by (cases xs) simp_all

lemma py_strip_digits:
  assumes "list_all isdigit ds"
  shows "py_strip ds = ds"
proof -
  from assms have a: "list_all (\<lambda>c. \<not> isspace c) ds"
    by (simp add: list_all_iff isdigit_not_isspace)
  then have b: "list_all (\<lambda>c. \<not> isspace c) (rev ds)"
    by (simp add: list_all_iff)
  show ?thesis
    by (simp add: py_strip_def dropWhile_none[OF a] dropWhile_none[OF b])
qed

lemma py_int_str_nat: "py_int (str_nat n) = Some (int n)"
proof -
  obtain c cs where s: "str_nat n = c # cs"
    using str_nat_nonempty[of n] by (cases "str_nat n") auto
  have d: "list_all isdigit (c # cs)" using str_nat_digits[of n] s by simp
  then have c: "c \<noteq> CHR ''-''" "c \<noteq> CHR ''+''" using isdigit_not_sign[of c] by auto
  have "py_strip (str_nat n) = c # cs" using py_strip_digits[OF d] s by simp
  moreover have "parse_digits (c # cs) = Some n"
    using d digits_val_str_nat[of n] s by (simp add: parse_digits_def)
  ultimately show ?thesis using c by (simp add: py_int_def)
qed

lemma those_py_int_str_nat: "those (map (py_int \<circ> str_nat) shp) = Some (map int shp)"
  by (induction shp) (simp_all add: py_int_str_nat)

lemma str_nat_no_comma: "CHR '','' \<notin> set (str_nat n)"
proof
  assume "CHR '','' \<in> set (str_nat n)"
  with str_nat_digits[of n] have "isdigit (CHR '','')" by (simp add: list_all_iff)
  then show False by (simp add: isdigit_def)
qed

lemma load_shape_saved:
  assumes "fs (file_name @ ''.shape'') = Some (join_comma (map str_nat shp))" "shp \<noteq> []"
  shows "load_shape_from_file file_name fs = Inr (map int shp)"
proof -
  have "split_comma (join_comma (map str_nat shp)) = map str_nat shp"
    by (rule split_comma_join_comma) (auto simp: assms(2) str_nat_no_comma)
  then show ?thesis
    by (simp add: load_shape_from_file_def assms(1) those_py_int_str_nat)
qed

lemma prod_list_int: "prod_list (map int shp) = int (prod_list shp)"
  by (induction shp) simp_all

lemma np_memmap_r_saved:
  assumes "fs file_name = Some bytes" "length bytes = prod_list shp * 4" "0 < prod_list shp"
  shows "np_memmap_r fs file_name (map int shp) = Inr \<lparr>dtype = Float32, shape = shp, data = bytes\<rparr>"
proof -
  have b: "bytes \<noteq> []" using assms(2,3) by auto
  have m: "map (nat \<circ> int) shp = shp" by (induction shp) simp_all
  have n: "\<not> list_ex (\<lambda>k. k < 0) (map int shp)" by (induction shp) simp_all
  show ?thesis
    using b n assms(1,2) by (simp add: np_memmap_r_def prod_list_int Let_def m)
qed

section \<open>Lemmas about the two stores\<close>

lemma itemsize_pos: "0 < itemsize d"
  by (cases d) simp_all

lemma shape_path_neq: "file_name @ ''.shape'' \<noteq> file_name"
  by simp

lemma save_embeddings_result:
  assumes "0 < nbytes embeddings"
  shows "save_embeddings_to_memmap embeddings file_name fs
       = Inr (fs(file_name @ ''.shape'' \<mapsto> join_comma (map str_nat (shape embeddings)),
                 file_name \<mapsto> data embeddings))"
  using assms by (simp add: save_embeddings_to_memmap_def Let_def)

lemma save_metadata_result:
  "save_metadata_to_file dumps metadata file_name fs
     = fs(file_name \<mapsto> (case fs file_name of None \<Rightarrow> [] | Some old \<Rightarrow> old)
                         @ concat (map (\<lambda>e. dumps e @ [LF]) metadata))"
  by (simp add: save_metadata_to_file_def foldl_written)

lemma ndarray_eta: "\<lparr>dtype = dtype a, shape = shape a, data = data a\<rparr> = (a :: ndarray)"
  by simp

lemma fetch_embedding_float32:
  assumes "wf_ndarray a" "dtype a = Float32" "shape a \<noteq> []" "0 < nbytes a"
    "fs (file_name @ ''.shape'') = Some (join_comma (map str_nat (shape a)))"
    "fs file_name = Some (data a)"
  shows "fetch_embedding file_name idx fs = ndarray_getitem a idx"
proof -
  have l: "load_shape_from_file file_name fs = Inr (map int (shape a))"
    by (rule load_shape_saved) (fact assms(5), fact assms(3))
  from assms(1,2) have len: "length (data a) = prod_list (shape a) * 4"
    by (simp add: wf_ndarray_def nbytes_def)
  from assms(2,4) have pos: "0 < prod_list (shape a)"
    by (simp add: nbytes_def)
  have "np_memmap_r fs file_name (map int (shape a))
      = Inr \<lparr>dtype = Float32, shape = shape a, data = data a\<rparr>"
    by (rule np_memmap_r_saved) (fact assms(6), fact len, fact pos)
  also have "\<lparr>dtype = Float32, shape = shape a, data = data a\<rparr> = a"
    using ndarray_eta[of a] assms(2) by simp
  finally show ?thesis by (simp add: fetch_embedding_def l)
qed


lemma ndarray_getitem_in_range:
  assumes "shape a = n # rest" "0 \<le> idx" "idx < int n"
  shows "ndarray_getitem a idx
       = Inr \<lparr>dtype = dtype a, shape = rest,
              data = take (prod_list rest * itemsize (dtype a))
                       (drop (nat idx * (prod_list rest * itemsize (dtype a))) (data a))\<rparr>"
  using assms by (simp add: ndarray_getitem_def Let_def)

lemma ndarray_getitem_beyond:
  assumes "shape a = n # rest" "int n \<le> idx"
  shows "ndarray_getitem a idx = Inl IndexError"
  using assms by (simp add: ndarray_getitem_def Let_def)

lemma np_memmap_r_shape:
  assumes "np_memmap_r fs file_name shp = Inr m"
  shows "shape m = map nat shp \<and> dtype m = Float32 \<and> \<not> list_ex (\<lambda>k. k < 0) shp"
proof (cases "fs file_name")
  case None
  with assms show ?thesis by (simp add: np_memmap_r_def)
next
  case (Some bytes)
  with assms show ?thesis
    by (auto simp: np_memmap_r_def Let_def split: if_splits)
qed

lemma fetch_metadata_written:
  assumes "fs metadata_file = None"
    "\<forall>e\<in>set metadata. LF \<notin> set (dumps e) \<and> CR \<notin> set (dumps e)
        \<and> loads (py_strip (dumps e @ [LF])) = Some e"
    "0 \<le> i" "i < int (length metadata)"
  shows "fetch_metadata loads metadata_file i
           (save_metadata_to_file dumps metadata metadata_file fs)
       = Inr (metadata ! nat i)"
proof -
  let ?lines = "map (\<lambda>e. dumps e @ [LF]) metadata"
  have nl: "\<forall>e\<in>set metadata. LF \<notin> set (dumps e) \<and> CR \<notin> set (dumps e)"
    using assms(2) by blast
  have t: "text_lines (concat ?lines) = ?lines"
    by (rule text_lines_written) (fact nl)
  have i: "nat i < length metadata" using assms(3,4) by auto
  then have "metadata ! nat i \<in> set metadata" by simp
  with assms(2) have d: "loads (py_strip (dumps (metadata ! nat i) @ [LF]))
      = Some (metadata ! nat i)"
    by blast
  have "scan_lines loads ?lines 0 i =
     (case loads (py_strip (?lines ! nat (i - 0))) of
        None \<Rightarrow> Inl JSONDecodeError | Some m \<Rightarrow> Inr m)"
    by (rule scan_lines_found) (simp_all add: assms(3,4))
  with i d have "scan_lines loads ?lines 0 i = Inr (metadata ! nat i)" by simp
  then show ?thesis
    by (simp add: fetch_metadata_def save_metadata_result assms(1) t)
qed

section \<open>Lemmas about the Stream Reader and the Pipeline Driver\<close>

lemma stream_lines_decoded:
  assumes "those (map (\<lambda>l. loads (py_strip l)) good) = Some entries"
  shows "stream_lines loads (good @ rest)
       = yields (filter (\<lambda>e. has_key e ''page_id'') entries) (stream_lines loads rest)"
  using assms
proof (induction good arbitrary: entries)
  case Nil
  then show ?case by simp
next
  case (Cons l good)
  from Cons.prems obtain e es where e: "loads (py_strip l) = Some e"
    and es: "those (map (\<lambda>l. loads (py_strip l)) good) = Some es"
    and entries: "entries = e # es"
    by (cases "loads (py_strip l)";
        cases "those (map (\<lambda>l. loads (py_strip l)) good)") auto
  from Cons.IH[OF es] e entries show ?case by simp
qed











section \<open>The Chunker: which document a closed chunk is tagged with\<close>

text \<open>
  Claim C3. When a row closes the running buffer, the emitted chunk should carry the document
  id and title of the previous row, whose sentences the buffer holds. The code assigns
  \<^verbatim>\<open>document_id\<close> and \<^verbatim>\<open>title\<close> from the row that triggers the close before it appends the
  tuple: with chunk size 4, the sentence of document 1 is emitted under the id and title of
  document 2.
\<close>

theorem closed_chunk_tagged_with_triggering_row:
  "reconstitute_sentences_into_chunks
     [(PyInt 1, ''aaa''), (PyInt 2, ''bbb'')]
     [PyInt 1 \<mapsto> PyStr ''A'', PyInt 2 \<mapsto> PyStr ''B''] 4 True False
   = Inr [(PyInt 2, PyStr ''B'', ''aaa''),
          (PyInt 2, PyStr ''B'', ''B'' @ title_sep @ ''B'' @ title_sep @ ''bbb'')]"
  by (simp add: reconstitute_sentences_into_chunks_def chunk_step_def chunker_init_def
      final_flush_def)

section \<open>The Chunker: chunk boundaries and documents\<close>




section \<open>The Chunker: a short document becomes one chunk\<close>

text \<open>
  Claim C7 says that a non-empty sequence of rows of one document whose total length is at
  most the chunk size gives exactly one chunk. A sequence of one row whose sentence is the
  empty string gives no chunk at all: the final flush is guarded by \<^verbatim>\<open>if current_chunk\<close>.
\<close>

theorem empty_sentence_yields_no_chunk:
  "reconstitute_sentences_into_chunks [(PyInt 1, [])] [PyInt 1 \<mapsto> PyStr ''A''] 512 True False
   = Inr []"
  by (simp add: reconstitute_sentences_into_chunks_def chunk_step_def chunker_init_def
      final_flush_def)

text \<open>
  Claim C7, as amended. For a non-empty sequence of rows of one document whose first sentence
  is not empty and whose sentence lengths add up to at most the chunk size, and with
  \<^verbatim>\<open>prepend_title_to_each_chunk\<close> set, the Chunker returns exactly one chunk: the title, the
  separator, and all the sentences joined by single spaces.
\<close>

theorem short_document_one_chunk:
  assumes "rows \<noteq> []" and "\<forall>r\<in>set rows. fst r = d" and "ids d = Some t"
    and "snd (hd rows) \<noteq> []"
    and "sum_list (map (\<lambda>r. int (length (snd r))) rows) \<le> chunk_size"
  shows "reconstitute_sentences_into_chunks rows ids chunk_size True tr
       = Inr [(d, t, py_str t @ title_sep @ join_space (map snd rows))]"
proof -
  from assms(1) obtain r rest where rows: "rows = r # rest" by (cases rows) auto
  obtain x where r: "r = (d, x)" using assms(2) rows by (cases r) auto
  from assms(4) rows r have x: "x \<noteq> []" by simp
  let ?s1 = "\<lparr>chunks = [], current_chunk = x, current_length = int (length x),
          title = t, document_id = d\<rparr>"
  have rest: "0 \<le> sum_list (map (\<lambda>r. int (length (snd r))) rest)"
    by (rule sentence_lengths_nonneg)
  from assms(5) rows r rest have fit: "current_length chunker_init + int (length x) \<le> chunk_size"
    by (simp add: chunker_init_def)
  have step: "chunk_step ids chunk_size True tr chunker_init (d, x) = Inr ?s1"
    using assms(3) fit by (simp add: chunk_step_def chunker_init_def)
  have "\<exists>u. chunk_loop ids chunk_size True tr ?s1 rest = Inr u \<and> chunks u = chunks ?s1
      \<and> current_chunk u = join_space (current_chunk ?s1 # map snd rest)
      \<and> title u = t \<and> document_id u = d"
  proof (rule chunk_loop_fits)
    show "\<forall>r\<in>set rest. fst r = d" using assms(2) rows by simp
    show "ids d = Some t" by (rule assms(3))
    show "current_length ?s1 + sum_list (map (\<lambda>r. int (length (snd r))) rest) \<le> chunk_size"
      using assms(5) rows r by simp
    show "current_chunk ?s1 \<noteq> []" using x by simp
  qed simp_all
  then obtain u where u: "chunk_loop ids chunk_size True tr ?s1 rest = Inr u" "chunks u = []"
      "current_chunk u = join_space (x # map snd rest)" "title u = t" "document_id u = d"
    by auto
  have ne: "join_space (x # map snd rest) \<noteq> []" using x by (cases rest) simp_all
  have loop: "chunk_loop ids chunk_size True tr chunker_init rows = Inr u"
    using step u(1) by (simp add: rows r)
  show ?thesis
    unfolding reconstitute_sentences_into_chunks_def loop
    using u(2-5) ne by (simp add: final_flush_def rows r)
qed

theorem short_document_one_chunk_witness:
  "[(PyInt 1, ''ab''), (PyInt 1, ''cd'')] \<noteq> []
   \<and> [PyInt 1 \<mapsto> PyStr ''A''] (PyInt 1) = Some (PyStr ''A'')
   \<and> snd (hd [(PyInt 1, ''ab''), (PyInt 1, ''cd'')]) \<noteq> []
   \<and> sum_list (map (\<lambda>r. int (length (snd r))) [(PyInt 1, ''ab''), (PyInt 1, ''cd'')]) \<le> 10
   \<and> reconstitute_sentences_into_chunks [(PyInt 1, ''ab''), (PyInt 1, ''cd'')]
        [PyInt 1 \<mapsto> PyStr ''A''] 10 True False
      = Inr [(PyInt 1, PyStr ''A'', ''A'' @ title_sep @ ''ab cd'')]"
proof -
  let ?rows = "[(PyInt 1, ''ab''), (PyInt 1, ''cd'')]"
  have h1: "?rows \<noteq> []" by simp
  have h2: "\<forall>r\<in>set ?rows. fst r = PyInt 1" by simp
  have h3: "[PyInt 1 \<mapsto> PyStr ''A''] (PyInt 1) = Some (PyStr ''A'')" by simp
  have h4: "snd (hd ?rows) \<noteq> []" by simp
  have h5: "sum_list (map (\<lambda>r. int (length (snd r))) ?rows) \<le> 10" by simp
  from short_document_one_chunk[where rows = ?rows and d = "PyInt 1"
      and ids = "[PyInt 1 \<mapsto> PyStr ''A'']" and t = "PyStr ''A''" and chunk_size = 10
      and tr = False, OF h1 h2 h3 h4 h5]
  have "reconstitute_sentences_into_chunks ?rows [PyInt 1 \<mapsto> PyStr ''A''] 10 True False
      = Inr [(PyInt 1, PyStr ''A'', ''A'' @ title_sep @ ''ab cd'')]"
    by simp
  with h1 h3 h4 h5 show ?thesis by (intro conjI)
qed

section \<open>The Chunker: truncation\<close>



section \<open>The Embedding Store: a second batch replaces the first\<close>

text \<open>
  Claim C1. Two calls of \<^verbatim>\<open>save_embeddings_to_memmap\<close> with the same path, the first with an
  array of shape (3, 768) and the second with one of shape (2, 768), both succeed, and
  afterwards the sidecar holds \<^verbatim>\<open>"2,768"\<close>, which loads as the shape (2, 768), and the
  binary file holds the buffer of the second array, of 2 * 768 elements, and nothing else.
  The file system is the one that the second call alone would have produced.
\<close>

theorem second_batch_replaces_first:
  assumes "wf_ndarray a" and "shape a = [3, 768]"
    and "wf_ndarray b" and "shape b = [2, 768]"
  shows "\<exists>fs1 fs2.
           save_embeddings_to_memmap a file_name fs = Inr fs1
         \<and> save_embeddings_to_memmap b file_name fs1 = Inr fs2
         \<and> fs2 (file_name @ ''.shape'') = Some ''2,768''
         \<and> load_shape_from_file file_name fs2 = Inr [2, 768]
         \<and> fs2 file_name = Some (data b)
         \<and> length (data b) = 2 * 768 * itemsize (dtype b)
         \<and> save_embeddings_to_memmap b file_name fs = Inr fs2"
proof -
  let ?side = "file_name @ ''.shape''"
  let ?fs1 = "fs(?side \<mapsto> join_comma (map str_nat (shape a)), file_name \<mapsto> data a)"
  let ?fs2 = "fs(?side \<mapsto> join_comma (map str_nat (shape b)), file_name \<mapsto> data b)"
  have pa: "0 < nbytes a" using assms(2) itemsize_pos[of "dtype a"] by (simp add: nbytes_def)
  have pb: "0 < nbytes b" using assms(4) itemsize_pos[of "dtype b"] by (simp add: nbytes_def)
  have s1: "save_embeddings_to_memmap a file_name fs = Inr ?fs1"
    by (rule save_embeddings_result) (fact pa)
  have "save_embeddings_to_memmap b file_name ?fs1
      = Inr (?fs1(?side \<mapsto> join_comma (map str_nat (shape b)), file_name \<mapsto> data b))"
    by (rule save_embeddings_result) (fact pb)
  also have "?fs1(?side \<mapsto> join_comma (map str_nat (shape b)), file_name \<mapsto> data b) = ?fs2"
    by (rule ext) simp
  finally have s2: "save_embeddings_to_memmap b file_name ?fs1 = Inr ?fs2" .
  have s3: "save_embeddings_to_memmap b file_name fs = Inr ?fs2"
    by (rule save_embeddings_result) (fact pb)
  have str: "join_comma (map str_nat [2, 768]) = ''2,768''" by code_simp
  have side: "?fs2 ?side = Some (join_comma (map str_nat (shape b)))" by simp
  have l: "load_shape_from_file file_name ?fs2 = Inr (map int (shape b))"
    by (rule load_shape_saved) (simp_all add: assms(4))
  have len: "length (data b) = 2 * 768 * itemsize (dtype b)"
    using assms(3,4) by (simp add: wf_ndarray_def nbytes_def)
  have "?fs2 ?side = Some ''2,768''" using side str by (simp add: assms(4))
  moreover have "load_shape_from_file file_name ?fs2 = Inr [2, 768]"
    using l by (simp add: assms(4))
  moreover have "?fs2 file_name = Some (data b)" by simp
  ultimately show ?thesis using s1 s2 s3 len by blast
qed

theorem second_batch_replaces_first_witness:
  "\<exists>fs1 fs2.
       save_embeddings_to_memmap
         \<lparr>dtype = Float32, shape = [3, 768], data = replicate 9216 (CHR 0x01)\<rparr>
         ''embeddings.bin'' Map.empty = Inr fs1
     \<and> save_embeddings_to_memmap
         \<lparr>dtype = Float32, shape = [2, 768], data = replicate 6144 (CHR 0x02)\<rparr>
         ''embeddings.bin'' fs1 = Inr fs2
     \<and> fs2 ''embeddings.bin.shape'' = Some ''2,768''
     \<and> fs2 ''embeddings.bin'' = Some (replicate 6144 (CHR 0x02))"
proof -
  let ?a = "\<lparr>dtype = Float32, shape = [3, 768], data = replicate 9216 (CHR 0x01)\<rparr>"
  let ?b = "\<lparr>dtype = Float32, shape = [2, 768], data = replicate 6144 (CHR 0x02)\<rparr>"
  have h1: "wf_ndarray ?a" by (simp add: wf_ndarray_def nbytes_def)
  have h2: "shape ?a = [3, 768]" by simp
  have h3: "wf_ndarray ?b" by (simp add: wf_ndarray_def nbytes_def)
  have h4: "shape ?b = [2, 768]" by simp
  from second_batch_replaces_first[where a = ?a and b = ?b and fs = Map.empty
      and file_name = "''embeddings.bin''", OF h1 h2 h3 h4]
  obtain fs1 fs2 where
    "save_embeddings_to_memmap ?a ''embeddings.bin'' Map.empty = Inr fs1"
    "save_embeddings_to_memmap ?b ''embeddings.bin'' fs1 = Inr fs2"
    "fs2 (''embeddings.bin'' @ ''.shape'') = Some ''2,768''"
    "fs2 ''embeddings.bin'' = Some (data ?b)"
    by blast
  then have "save_embeddings_to_memmap ?a ''embeddings.bin'' Map.empty = Inr fs1
     \<and> save_embeddings_to_memmap ?b ''embeddings.bin'' fs1 = Inr fs2
     \<and> fs2 ''embeddings.bin.shape'' = Some ''2,768''
     \<and> fs2 ''embeddings.bin'' = Some (replicate 6144 (CHR 0x02))"
    by simp
  then show ?thesis by blast
qed

section \<open>Round trip through the two stores\<close>

text \<open>
  Claim C5. A batch of \<open>n\<close> chunks is written: its embeddings, an array of 32-bit floats with
  \<open>n\<close> rows and at least one element, by \<^verbatim>\<open>save_embeddings_to_memmap\<close>, and then its \<open>n\<close>
  metadata entries, in the same order, by \<^verbatim>\<open>save_metadata_to_file\<close>, to a metadata file that
  did not exist and is neither the binary file nor its sidecar. Each entry is written by
  \<^verbatim>\<open>json.dumps\<close> as one line that \<^verbatim>\<open>json.loads\<close> reads back. Then for every index \<open>i\<close> with
  \<open>0 \<le> i < n\<close>, \<^verbatim>\<open>fetch_embedding_and_metadata\<close> returns the row \<open>i\<close> of the array and the entry
  \<open>i\<close> of the list.
\<close>

theorem fetch_returns_what_was_written:
  assumes "wf_ndarray embeddings" and "dtype embeddings = Float32"
    and "shape embeddings = n # dims" and "0 < nbytes embeddings"
    and "length metadata = n"
    and "\<forall>e\<in>set metadata. LF \<notin> set (dumps e) \<and> CR \<notin> set (dumps e)
           \<and> loads (py_strip (dumps e @ [LF])) = Some e"
    and "fs metadata_file = None"
    and "metadata_file \<noteq> embeddings_file" and "metadata_file \<noteq> embeddings_file @ ''.shape''"
    and "0 \<le> i" and "i < int n"
  shows "\<exists>fs1 row.
           save_embeddings_to_memmap embeddings embeddings_file fs = Inr fs1
         \<and> ndarray_getitem embeddings i = Inr row
         \<and> fetch_embedding_and_metadata loads embeddings_file metadata_file i
              (save_metadata_to_file dumps metadata metadata_file fs1)
            = Inr (row, metadata ! nat i)"
proof -
  let ?side = "embeddings_file @ ''.shape''"
  let ?fs1 = "fs(?side \<mapsto> join_comma (map str_nat (shape embeddings)),
                 embeddings_file \<mapsto> data embeddings)"
  let ?fs2 = "save_metadata_to_file dumps metadata metadata_file ?fs1"
  let ?row = "\<lparr>dtype = dtype embeddings, shape = dims,
              data = take (prod_list dims * itemsize (dtype embeddings))
                       (drop (nat i * (prod_list dims * itemsize (dtype embeddings)))
                          (data embeddings))\<rparr>"
  have s1: "save_embeddings_to_memmap embeddings embeddings_file fs = Inr ?fs1"
    by (rule save_embeddings_result) (fact assms(4))
  have g: "ndarray_getitem embeddings i = Inr ?row"
    by (rule ndarray_getitem_in_range) (fact assms(3), fact assms(10), fact assms(11))
  have fresh: "?fs1 metadata_file = None"
    using assms(7,8,9) by simp
  have side: "?fs2 ?side = Some (join_comma (map str_nat (shape embeddings)))"
    using assms(9) by (simp add: save_metadata_result)
  have bin: "?fs2 embeddings_file = Some (data embeddings)"
    using assms(8) by (simp add: save_metadata_result)
  have ne: "shape embeddings \<noteq> []" using assms(3) by simp
  have e: "fetch_embedding embeddings_file i ?fs2 = ndarray_getitem embeddings i"
    by (rule fetch_embedding_float32)
       (fact assms(1), fact assms(2), fact ne, fact assms(4), fact side, fact bin)
  have m: "fetch_metadata loads metadata_file i ?fs2 = Inr (metadata ! nat i)"
    by (rule fetch_metadata_written)
       (fact fresh, fact assms(6), fact assms(10), simp add: assms(5) assms(11))
  have "fetch_embedding_and_metadata loads embeddings_file metadata_file i ?fs2
      = Inr (?row, metadata ! nat i)"
    by (simp add: fetch_embedding_and_metadata_def e g m)
  with s1 g show ?thesis by blast
qed

theorem fetch_returns_what_was_written_witness:
  "\<exists>fs1.
       save_embeddings_to_memmap example_embeddings ''e.bin'' Map.empty = Inr fs1
     \<and> fetch_embedding_and_metadata example_loads ''e.bin'' ''m.gz'' 1
          (save_metadata_to_file example_dumps
             [[(''doc_id'', PyInt 1)], [(''doc_id'', PyInt 2)]] ''m.gz'' fs1)
        = Inr (\<lparr>dtype = Float32, shape = [1],
                data = [CHR 0x05, CHR 0x06, CHR 0x07, CHR 0x08]\<rparr>,
               [(''doc_id'', PyInt 2)])"
proof -
  let ?md = "[[(''doc_id'', PyInt 1)], [(''doc_id'', PyInt 2)]]"
  have h1: "wf_ndarray example_embeddings"
    by (simp add: wf_ndarray_def nbytes_def example_embeddings_def)
  have h2: "dtype example_embeddings = Float32" by (simp add: example_embeddings_def)
  have h3: "shape example_embeddings = 2 # [1]" by (simp add: example_embeddings_def)
  have h4: "0 < nbytes example_embeddings" by (simp add: nbytes_def example_embeddings_def)
  have h5: "length ?md = 2" by simp
  have h6: "\<forall>e\<in>set ?md. LF \<notin> set (example_dumps e) \<and> CR \<notin> set (example_dumps e)
           \<and> example_loads (py_strip (example_dumps e @ [LF])) = Some e"
    by (simp add: example_dumps_def example_loads_def py_strip_def isspace_def LF_def CR_def)
  have h7: "(Map.empty :: filesystem) ''m.gz'' = None" by simp
  have h8: "''m.gz'' \<noteq> ''e.bin''" by simp
  have h9: "''m.gz'' \<noteq> ''e.bin'' @ ''.shape''" by simp
  have h10: "(0::int) \<le> 1" by simp
  have h11: "(1::int) < int 2" by simp
  from fetch_returns_what_was_written[where embeddings = example_embeddings and n = 2
      and dims = "[1]" and metadata = ?md and dumps = example_dumps
      and loads = example_loads and fs = Map.empty and metadata_file = "''m.gz''"
      and embeddings_file = "''e.bin''" and i = 1,
      OF h1 h2 h3 h4 h5 h6 h7 h8 h9 h10 h11]
  obtain fs1 row where f:
    "save_embeddings_to_memmap example_embeddings ''e.bin'' Map.empty = Inr fs1"
    "ndarray_getitem example_embeddings 1 = Inr row"
    "fetch_embedding_and_metadata example_loads ''e.bin'' ''m.gz'' 1
       (save_metadata_to_file example_dumps ?md ''m.gz'' fs1) = Inr (row, ?md ! nat 1)"
    by blast
  from f(2) have "row = \<lparr>dtype = Float32, shape = [1],
                data = [CHR 0x05, CHR 0x06, CHR 0x07, CHR 0x08]\<rparr>"
    by (simp add: ndarray_getitem_def example_embeddings_def)
  with f(1,3) show ?thesis by auto
qed

section \<open>Fetching beyond the end of the stores\<close>

text \<open>
  Claim C6. Let the Embedding Store hold \<open>n\<close> rows (the sidecar loads as a shape whose first
  dimension is \<open>n\<close>, and the binary file can be mapped under that shape) and the Metadata
  Store hold \<open>n\<close> lines. For every index \<open>idx \<ge> n\<close> both halves of the fetch fail and no data
  is returned: indexing the array raises \<^verbatim>\<open>IndexError\<close>, which is what
  \<^verbatim>\<open>fetch_embedding_and_metadata\<close> raises, and the scan of the metadata file ends without a
  line for the index, so that the metadata read on its own raises \<^verbatim>\<open>UnboundLocalError\<close>.
\<close>

theorem fetch_beyond_the_end_fails:
  assumes "load_shape_from_file embeddings_file fs = Inr (int n # dims)"
    and "np_memmap_r fs embeddings_file (int n # dims) = Inr memmap_array"
    and "fs metadata_file = Some content" and "length (text_lines content) = n"
    and "int n \<le> idx"
  shows "fetch_embedding embeddings_file idx fs = Inl IndexError
       \<and> fetch_metadata loads metadata_file idx fs = Inl UnboundLocalError
       \<and> fetch_embedding_and_metadata loads embeddings_file metadata_file idx fs
           = Inl IndexError"
proof -
  from np_memmap_r_shape[OF assms(2)] have sh: "shape memmap_array = n # map nat dims"
    by simp
  have g: "ndarray_getitem memmap_array idx = Inl IndexError"
    by (rule ndarray_getitem_beyond) (fact sh, fact assms(5))
  have e: "fetch_embedding embeddings_file idx fs = Inl IndexError"
    by (simp add: fetch_embedding_def assms(1,2) g)
  have "scan_lines loads (text_lines content) 0 idx = Inl UnboundLocalError"
    by (rule scan_lines_beyond) (simp add: assms(4,5))
  then have m: "fetch_metadata loads metadata_file idx fs = Inl UnboundLocalError"
    by (simp add: fetch_metadata_def assms(3))
  from e m show ?thesis by (simp add: fetch_embedding_and_metadata_def)
qed

theorem fetch_beyond_the_end_fails_witness:
  "fetch_embedding ''e.bin'' 2
     [''e.bin.shape'' \<mapsto> ''2,1'', ''e.bin'' \<mapsto> data example_embeddings,
      ''m.gz'' \<mapsto> ''a'' @ [LF] @ ''b'' @ [LF]] = Inl IndexError
   \<and> fetch_metadata example_loads ''m.gz'' 2
     [''e.bin.shape'' \<mapsto> ''2,1'', ''e.bin'' \<mapsto> data example_embeddings,
      ''m.gz'' \<mapsto> ''a'' @ [LF] @ ''b'' @ [LF]] = Inl UnboundLocalError
   \<and> fetch_embedding_and_metadata example_loads ''e.bin'' ''m.gz'' 2
     [''e.bin.shape'' \<mapsto> ''2,1'', ''e.bin'' \<mapsto> data example_embeddings,
      ''m.gz'' \<mapsto> ''a'' @ [LF] @ ''b'' @ [LF]] = Inl IndexError"
proof -
  let ?fs = "[''e.bin.shape'' \<mapsto> ''2,1'', ''e.bin'' \<mapsto> data example_embeddings,
      ''m.gz'' \<mapsto> ''a'' @ [LF] @ ''b'' @ [LF]]"
  have h1: "load_shape_from_file ''e.bin'' ?fs = Inr (int 2 # [1])"
    by (simp add: load_shape_from_file_def py_int_def py_strip_def isspace_def
        parse_digits_def isdigit_def digit_val_def)
  have h2: "np_memmap_r ?fs ''e.bin'' (int 2 # [1]) = Inr example_embeddings"
    by (simp add: np_memmap_r_def example_embeddings_def)
  have h3: "?fs ''m.gz'' = Some (''a'' @ [LF] @ ''b'' @ [LF])" by simp
  have h4: "length (text_lines (''a'' @ [LF] @ ''b'' @ [LF])) = 2"
    by (simp add: LF_def CR_def)
  have h5: "int 2 \<le> 2" by simp
  from fetch_beyond_the_end_fails[where embeddings_file = "''e.bin''" and fs = ?fs
      and n = 2 and dims = "[1]" and memmap_array = example_embeddings
      and metadata_file = "''m.gz''" and content = "''a'' @ [LF] @ ''b'' @ [LF]" and idx = 2
      and loads = example_loads, OF h1 h2 h3 h4 h5]
  show ?thesis .
qed

section \<open>The element type is not recorded\<close>



section \<open>The Stream Reader: skipped entries and fatal lines\<close>

text \<open>
  Claim C9. Let the first lines of the input file decode, as JSON objects. If these are all
  the lines of the file, \<^verbatim>\<open>stream_jsonl\<close> yields, in the order of the file, exactly the entries
  among them that have the field \<^verbatim>\<open>page_id\<close>, passes over the others, and ends. If the next
  line does not decode, it yields the same entries and then raises \<^verbatim>\<open>JSONDecodeError\<close> to its
  caller: the line is not passed over, and no later line is read.
\<close>

theorem stream_yields_records_with_page_id:
  assumes "fs file_path = Some content"
    and "those (map (\<lambda>l. loads (py_strip l)) good) = Some entries"
  shows "(text_lines content = good \<longrightarrow>
            stream_jsonl loads file_path fs
            = yields (filter (\<lambda>e. has_key e ''page_id'') entries) Done)
       \<and> (\<forall>bad rest. text_lines content = good @ bad # rest \<and> loads (py_strip bad) = None \<longrightarrow>
            stream_jsonl loads file_path fs
            = yields (filter (\<lambda>e. has_key e ''page_id'') entries) (Raise JSONDecodeError))"
proof (intro conjI allI impI)
  assume "text_lines content = good"
  with stream_lines_decoded[OF assms(2), of "[]"]
  show "stream_jsonl loads file_path fs
      = yields (filter (\<lambda>e. has_key e ''page_id'') entries) Done"
    by (simp add: stream_jsonl_def assms(1))
next
  fix bad rest
  assume a: "text_lines content = good @ bad # rest \<and> loads (py_strip bad) = None"
  then have "stream_lines loads (bad # rest) = Raise JSONDecodeError" by simp
  with stream_lines_decoded[OF assms(2), of "bad # rest"] a
  show "stream_jsonl loads file_path fs
      = yields (filter (\<lambda>e. has_key e ''page_id'') entries) (Raise JSONDecodeError)"
    by (simp add: stream_jsonl_def assms(1))
qed

theorem stream_yields_records_with_page_id_witness:
  \<open>stream_jsonl example_loads ''in.gz''
     [''in.gz'' \<mapsto> example_line 1 @ [LF] @ ''{"doc_id": 1}'' @ [LF] @ ''oops'' @ [LF]
                     @ example_line 2 @ [LF]]
   = Yield (example_doc 1) (Raise JSONDecodeError)\<close>
proof -
  let ?content = \<open>example_line 1 @ [LF] @ ''{"doc_id": 1}'' @ [LF] @ ''oops'' @ [LF]
                     @ example_line 2 @ [LF]\<close>
  let ?good = \<open>[example_line 1 @ [LF], ''{"doc_id": 1}'' @ [LF]]\<close>
  let ?fs = "[''in.gz'' \<mapsto> ?content]"
  have h1: "?fs ''in.gz'' = Some ?content" by simp
  have h2: "those (map (\<lambda>l. example_loads (py_strip l)) ?good)
      = Some [example_doc 1, [(''doc_id'', PyInt 1)]]"
    by code_simp
  have h3: "text_lines ?content = ?good @ (''oops'' @ [LF]) # [example_line 2 @ [LF]]"
    by code_simp
  have h4: "example_loads (py_strip (''oops'' @ [LF])) = None" by code_simp
  have f: "filter (\<lambda>e. has_key e ''page_id'') [example_doc 1, [(''doc_id'', PyInt 1)]]
      = [example_doc 1]"
    by (simp add: has_key_def example_doc_def)
  from stream_yields_records_with_page_id[where fs = ?fs and file_path = "''in.gz''"
      and content = ?content and loads = example_loads and good = ?good
      and entries = "[example_doc 1, [(''doc_id'', PyInt 1)]]", OF h1 h2]
  have "\<forall>bad rest. text_lines ?content = ?good @ bad # rest
            \<and> example_loads (py_strip bad) = None \<longrightarrow>
            stream_jsonl example_loads ''in.gz'' ?fs
            = yields (filter (\<lambda>e. has_key e ''page_id'')
                        [example_doc 1, [(''doc_id'', PyInt 1)]]) (Raise JSONDecodeError)"
    by (rule conjunct2)
  with h3 h4 have "stream_jsonl example_loads ''in.gz'' ?fs
            = yields (filter (\<lambda>e. has_key e ''page_id'')
                        [example_doc 1, [(''doc_id'', PyInt 1)]]) (Raise JSONDecodeError)"
    by blast
  then show ?thesis unfolding f yields.simps .
qed

section \<open>The Pipeline Driver: full batches only\<close>



end
